theory Spec2Isabelle
  imports Main "HOL-Library.Word"
begin

unbundle bit_operations_syntax

section \<open>Data model of crypto.go\<close>

type_synonym byte = "8 word"

text \<open>
  The sentinel errors of crypto.go (\<open>var ( ErrIncompleteHeader = errors.New ... )\<close>),
  followed by the errors that the Go standard library hands back through the
  \<open>return nil, err\<close> branches: \<open>io.EOF\<close>, \<open>io.ErrUnexpectedEOF\<close> and
  \<open>aes.KeySizeError\<close> (which carries the offending key length).
\<close>

datatype error =
    ErrIncompleteHeader
  | ErrIncompleteCiphertext
  | ErrIncompleteIV
  | ErrIncompleteMagic
  | ErrIncompleteMAC
  | ErrIncorrectMAC
  | ErrInvalidMagic
  | EOF
  | ErrUnexpectedEOF
  | KeySizeError nat

text \<open>
  Run-time panics that the functions of crypto.go can reach: a slice expression out of
  range, and \<open>CryptBlocks\<close> called on input that is not a whole number of blocks
  ("crypto/cipher: input not full blocks").
\<close>

datatype panic = SliceBoundsOutOfRange | InputNotFullBlocks

text \<open>
  What a call does: it returns a value with a nil error (\<open>Ok\<close>), it returns a non-nil
  error (\<open>Err\<close>), or it panics.
\<close>

datatype 'a outcome = Ok 'a | Err error | Panic panic

text \<open>
  \<open>type KeyPair struct { EncKey []byte; MACKey []byte }\<close>. The functions take a
  \<open>*KeyPair\<close>; the model takes the key pair itself, so a nil pointer is not an input.
\<close>

record KeyPair =
  EncKey :: "byte list"
  MACKey :: "byte list"

text \<open>
  The cryptographic primitives are imported packages, not code of this repository; the
  functions below take them as a parameter.
  \<^item> \<open>hmac_sha256 key msg\<close>: \<open>hmac.New(sha256.New, key)\<close>, \<open>Write(msg)\<close>, \<open>Sum(nil)\<close>.
  \<^item> \<open>aes_decrypt_block key\<close>: the block decryption of the cipher that
    \<open>aes.NewCipher(key)\<close> returns; a block is 16 bytes, held as a 128-bit word
    (most significant byte first).
  \<^item> \<open>pbkdf2_sha512 password salt iter keyLen\<close>: \<open>pbkdf2.Key(password, salt, iter,
    keyLen, sha512.New)\<close>.
  \<^item> \<open>sha512_Sum512 msg\<close>: \<open>sha512.Sum512(msg)\<close>, a \<open>[64]byte\<close> array, held as a
    512-bit word (most significant byte first).
\<close>

record primitives =
  hmac_sha256 :: "byte list \<Rightarrow> byte list \<Rightarrow> byte list"
  aes_decrypt_block :: "byte list \<Rightarrow> 128 word \<Rightarrow> 128 word"
  pbkdf2_sha512 :: "byte list \<Rightarrow> byte list \<Rightarrow> int \<Rightarrow> nat \<Rightarrow> byte list"
  sha512_Sum512 :: "byte list \<Rightarrow> 512 word"

section \<open>Go run-time and library operations used by crypto.go\<close>

text \<open>
  The slice expression \<open>s[lo:hi]\<close>. Every slice that crypto.go cuts is freshly made with
  its capacity equal to its length, so the bound is the length.
\<close>

definition slice_expr :: "'a list \<Rightarrow> nat \<Rightarrow> nat \<Rightarrow> 'a list outcome" where
  "slice_expr s lo hi =
     (if lo \<le> hi \<and> hi \<le> length s then Ok (take (hi - lo) (drop lo s))
      else Panic SliceBoundsOutOfRange)"

text \<open>
  \<open>(*bytes.Reader).Read\<close> and \<open>(*bytes.Buffer).Read\<close> into a buffer of \<open>n > 0\<close> bytes:
  with nothing left to read both return \<open>0, io.EOF\<close>; otherwise they copy as many bytes
  as fit. The result is the bytes copied (their number is Go's \<open>n\<close>) and the unread rest.
\<close>

definition Read :: "byte list \<Rightarrow> nat \<Rightarrow> (byte list \<times> byte list) outcome" where
  "Read r n = (if r = [] then Err EOF else Ok (take n r, drop n r))"

text \<open>\<open>ioutil.ReadAll\<close> on such a reader: everything unread, and a nil error.\<close>

definition ReadAll :: "byte list \<Rightarrow> byte list" where
  "ReadAll r = r"

text \<open>\<open>binary.LittleEndian.Uint64\<close>: \<open>uint64(b[0]) | uint64(b[1])<<8 | ...\<close>\<close>

fun LittleEndian_Uint64 :: "byte list \<Rightarrow> 64 word" where
  "LittleEndian_Uint64 [] = 0"
| "LittleEndian_Uint64 (b # bs) = ucast b OR push_bit 8 (LittleEndian_Uint64 bs)"

text \<open>
  \<open>binary.Read(r, binary.LittleEndian, &ptLen)\<close> for a \<open>uint64\<close>: \<open>io.ReadFull\<close> of 8
  bytes, which fails with \<open>io.EOF\<close> when nothing is left and with
  \<open>io.ErrUnexpectedEOF\<close> when fewer than 8 bytes are.
\<close>

definition binary_Read_uint64 :: "byte list \<Rightarrow> (64 word \<times> byte list) outcome" where
  "binary_Read_uint64 r =
     (if r = [] then Err EOF
      else if length r < 8 then Err ErrUnexpectedEOF
      else Ok (LittleEndian_Uint64 (take 8 r), drop 8 r))"

text \<open>The \<open>n\<close> low bytes of a word, most significant first, and the converse.\<close>

definition bytes_of_word :: "nat \<Rightarrow> 'a::len word \<Rightarrow> byte list" where
  "bytes_of_word n w = map (\<lambda>i. ucast (drop_bit (8 * (n - 1 - i)) w)) [0..<n]"

definition word_of_bytes :: "byte list \<Rightarrow> 'a::len word" where
  "word_of_bytes bs = foldl (\<lambda>w b. push_bit 8 w OR ucast b) 0 bs"

text \<open>
  \<open>aes.NewCipher(key)\<close>: a key of 16, 24 or 32 bytes selects AES-128, AES-192 or
  AES-256; any other length is refused with \<open>KeySizeError\<close>.
\<close>

definition aes_NewCipher ::
  "primitives \<Rightarrow> byte list \<Rightarrow> (128 word \<Rightarrow> 128 word) outcome" where
  "aes_NewCipher P key =
     (if length key = 16 \<or> length key = 24 \<or> length key = 32
      then Ok (aes_decrypt_block P key)
      else Err (KeySizeError (length key)))"

text \<open>
  The CBC decrypter: each plaintext block is the decryption of its ciphertext block,
  xor-ed with the previous ciphertext block (the IV for the first).
\<close>

fun cbc_blocks :: "(128 word \<Rightarrow> 128 word) \<Rightarrow> 128 word \<Rightarrow> 128 word list \<Rightarrow> 128 word list" where
  "cbc_blocks d prev [] = []"
| "cbc_blocks d prev (c # cs) = (d c XOR prev) # cbc_blocks d c cs"

definition blocks_of :: "byte list \<Rightarrow> 128 word list" where
  "blocks_of src = map (\<lambda>i. word_of_bytes (take 16 (drop (16 * i) src))) [0..<length src div 16]"

definition cbc_decrypt ::
  "(128 word \<Rightarrow> 128 word) \<Rightarrow> byte list \<Rightarrow> byte list \<Rightarrow> byte list" where
  "cbc_decrypt b iv src =
     concat (map (bytes_of_word 16) (cbc_blocks b (word_of_bytes iv) (blocks_of src)))"

text \<open>
  \<open>cipher.NewCBCDecrypter(b, iv).CryptBlocks(dst, src)\<close> with \<open>dst\<close> made as long as
  \<open>src\<close>: it panics when \<open>len(src)\<close> is not a multiple of the block size, and otherwise
  fills \<open>dst\<close>.
\<close>

definition CryptBlocks ::
  "(128 word \<Rightarrow> 128 word) \<Rightarrow> byte list \<Rightarrow> byte list \<Rightarrow> byte list outcome" where
  "CryptBlocks b iv src =
     (if length src mod 16 \<noteq> 0 then Panic InputNotFullBlocks
      else Ok (cbc_decrypt b iv src))"

section \<open>The functions of crypto.go\<close>

definition EncKeySize :: nat where "EncKeySize = 32"
definition MACKeySize :: nat where "MACKeySize = 32"
definition sha256_Size :: nat where "sha256_Size = 32"
definition aes_BlockSize :: nat where "aes_BlockSize = 16"

text \<open>\<open>OPData01Magic = []byte("opdata01")\<close>\<close>

definition OPData01Magic :: "byte list" where
  "OPData01Magic = [0x6f, 0x70, 0x64, 0x61, 0x74, 0x61, 0x30, 0x31]"

text \<open>
  \<open>ComputeDerivedKeys\<close> has no error result: it returns the pair cut from the 64 bytes
  asked of \<open>pbkdf2.Key\<close>, whatever \<open>nIters\<close> is.
\<close>

definition ComputeDerivedKeys ::
  "primitives \<Rightarrow> byte list \<Rightarrow> byte list \<Rightarrow> int \<Rightarrow> KeyPair outcome" where
  "ComputeDerivedKeys P pass salt nIters =
     (let data = pbkdf2_sha512 P pass salt nIters 64 in
      case slice_expr data 0 32 of
        Panic p \<Rightarrow> Panic p
      | Err e \<Rightarrow> Err e
      | Ok ek \<Rightarrow>
          (case slice_expr data 32 64 of
             Panic p \<Rightarrow> Panic p
           | Err e \<Rightarrow> Err e
           | Ok mk \<Rightarrow> Ok \<lparr>EncKey = ek, MACKey = mk\<rparr>))"

definition authenticate :: "primitives \<Rightarrow> byte list \<Rightarrow> KeyPair \<Rightarrow> byte list outcome" where
  "authenticate P blob kp =
     (if length blob < sha256_Size then Err ErrIncompleteMAC
      else
        let macOff = length blob - sha256_Size;
            data = take macOff blob;
            dataMAC = drop macOff blob;
            expectedMAC = hmac_sha256 P (MACKey kp) data
        in if dataMAC \<noteq> expectedMAC then Err ErrIncorrectMAC
           else Ok data)"

definition decrypt :: "primitives \<Rightarrow> byte list \<Rightarrow> KeyPair \<Rightarrow> byte list outcome" where
  "decrypt P blob kp =
     (case Read blob aes_BlockSize of
        Panic p \<Rightarrow> Panic p
      | Err e \<Rightarrow> Err e
      | Ok (iv, r) \<Rightarrow>
          if length iv \<noteq> aes_BlockSize then Err ErrIncompleteIV
          else
            let ciphertext = ReadAll r in
            if length ciphertext < aes_BlockSize then Err ErrIncompleteCiphertext
            else
              (case aes_NewCipher P (EncKey kp) of
                 Panic p \<Rightarrow> Panic p
               | Err e \<Rightarrow> Err e
               | Ok b \<Rightarrow> CryptBlocks b iv ciphertext))"

definition DecryptOPData01 :: "primitives \<Rightarrow> byte list \<Rightarrow> KeyPair \<Rightarrow> byte list outcome" where
  "DecryptOPData01 P opdata kp =
     (case authenticate P opdata kp of
        Panic p \<Rightarrow> Panic p
      | Err e \<Rightarrow> Err e
      | Ok opdata' \<Rightarrow>
          (case Read opdata' (length OPData01Magic) of
             Panic p \<Rightarrow> Panic p
           | Err e \<Rightarrow> Err e
           | Ok (magic, r) \<Rightarrow>
               if length magic \<noteq> length OPData01Magic then Err ErrIncompleteMagic
               else if magic \<noteq> OPData01Magic then Err ErrInvalidMagic
               else
                 (case binary_Read_uint64 r of
                    Panic p \<Rightarrow> Panic p
                  | Err e \<Rightarrow> Err e
                  | Ok (ptLen, r') \<Rightarrow>
                      let padLen = (16 :: 64 word) - (ptLen mod 16);
                          ct = ReadAll r'
                      in (case decrypt P ct kp of
                            Panic p \<Rightarrow> Panic p
                          | Err e \<Rightarrow> Err e
                          | Ok plaintext \<Rightarrow>
                              slice_expr plaintext (unat padLen) (length plaintext)))))"

definition DecryptMasterKeys :: "primitives \<Rightarrow> byte list \<Rightarrow> KeyPair \<Rightarrow> KeyPair outcome" where
  "DecryptMasterKeys P opdata derivedKeys =
     (case DecryptOPData01 P opdata derivedKeys of
        Panic p \<Rightarrow> Panic p
      | Err e \<Rightarrow> Err e
      | Ok mkData \<Rightarrow>
          let data = bytes_of_word 64 (sha512_Sum512 P mkData) in
          (case slice_expr data 0 32 of
             Panic p \<Rightarrow> Panic p
           | Err e \<Rightarrow> Err e
           | Ok ek \<Rightarrow>
               (case slice_expr data 32 64 of
                  Panic p \<Rightarrow> Panic p
                | Err e \<Rightarrow> Err e
                | Ok mk \<Rightarrow> Ok \<lparr>EncKey = ek, MACKey = mk\<rparr>)))"

definition DecryptItemKey :: "primitives \<Rightarrow> byte list \<Rightarrow> KeyPair \<Rightarrow> KeyPair outcome" where
  "DecryptItemKey P itemKey kp =
     (case authenticate P itemKey kp of
        Panic p \<Rightarrow> Panic p
      | Err e \<Rightarrow> Err e
      | Ok itemKey' \<Rightarrow>
          (case decrypt P itemKey' kp of
             Panic p \<Rightarrow> Panic p
           | Err e \<Rightarrow> Err e
           | Ok plaintext \<Rightarrow>
               (case slice_expr plaintext 0 EncKeySize of
                  Panic p \<Rightarrow> Panic p
                | Err e \<Rightarrow> Err e
                | Ok ek \<Rightarrow>
                    (case slice_expr plaintext EncKeySize (EncKeySize + MACKeySize) of
                       Panic p \<Rightarrow> Panic p
                     | Err e \<Rightarrow> Err e
                     | Ok mk \<Rightarrow> Ok \<lparr>EncKey = ek, MACKey = mk\<rparr>))))"

section \<open>A small instance of the primitives\<close>

text \<open>
  The general theorems below hold for every value of the parameter. To run the functions
  on concrete inputs the parameter must be given; this instance has a checksum for the
  tag and the bitwise complement for the block decryption. It is used for worked
  examples only.
\<close>

definition toy_primitives :: primitives where
  "toy_primitives =
     \<lparr>hmac_sha256 = (\<lambda>key msg. replicate 32 (sum_list key + sum_list msg)),
      aes_decrypt_block = (\<lambda>key c. NOT c),
      pbkdf2_sha512 = (\<lambda>password salt iter keyLen.
         replicate keyLen (sum_list password + sum_list salt)),
      sha512_Sum512 = (\<lambda>msg. of_nat (length msg))\<rparr>"

definition toy_kp :: KeyPair where
  "toy_kp = \<lparr>EncKey = replicate 32 1, MACKey = replicate 32 2\<rparr>"

text \<open>
  The repository only decodes. For the examples, \<open>container\<close> frames a length field, an
  IV and a ciphertext as an OPData01 blob and appends the tag of the framed bytes, and
  \<open>item_key_blob\<close> does the same for the item-key layout.
\<close>

definition container ::
  "primitives \<Rightarrow> KeyPair \<Rightarrow> byte list \<Rightarrow> byte list \<Rightarrow> byte list \<Rightarrow> byte list" where
  "container P kp lenbytes iv ct =
     (let payload = OPData01Magic @ lenbytes @ iv @ ct
      in payload @ hmac_sha256 P (MACKey kp) payload)"

definition item_key_blob :: "primitives \<Rightarrow> KeyPair \<Rightarrow> byte list \<Rightarrow> byte list \<Rightarrow> byte list" where
  "item_key_blob P kp iv ct = (iv @ ct) @ hmac_sha256 P (MACKey kp) (iv @ ct)"

section \<open>Basic facts about the run-time operations\<close>

lemma slice_not_Err: "slice_expr s lo hi \<noteq> Err e"
  by (simp add: slice_expr_def)

lemma slice_Ok: "lo \<le> hi \<Longrightarrow> hi \<le> length s \<Longrightarrow> slice_expr s lo hi = Ok (take (hi - lo) (drop lo s))"
  by (simp add: slice_expr_def)

lemma slice_Ok_length: "slice_expr s lo hi = Ok r \<Longrightarrow> length r = hi - lo"
  by (auto simp: slice_expr_def split: if_splits)

lemma length_bytes_of_word: "length (bytes_of_word n w) = n"
  by (simp add: bytes_of_word_def)

lemma length_cbc_blocks: "length (cbc_blocks d prev cs) = length cs"
  by (induction cs arbitrary: prev) simp_all

lemma length_concat_const:
  "(\<And>x. x \<in> set xs \<Longrightarrow> length (f x) = n) \<Longrightarrow> length (concat (map f xs)) = n * length xs"
  by (induction xs) simp_all

lemma length_cbc_decrypt: "length (cbc_decrypt b iv src) = 16 * (length src div 16)"
  unfolding cbc_decrypt_def
  by (simp add: length_concat_const length_bytes_of_word length_cbc_blocks blocks_of_def)

lemma length_cbc_decrypt_full:
  "length src mod 16 = 0 \<Longrightarrow> length (cbc_decrypt b iv src) = length src"
  unfolding length_cbc_decrypt by presburger

lemma unat_padLen: "unat ((16 :: 64 word) - ptLen mod 16) = 16 - unat ptLen mod 16"
proof -
  have "ptLen mod 16 \<le> 16"
    by (simp add: word_le_nat_alt unat_mod)
  then have "unat ((16 :: 64 word) - ptLen mod 16) = unat (16 :: 64 word) - unat (ptLen mod 16)"
    by (rule unat_sub)
  then show ?thesis by (simp add: unat_mod)
qed

section \<open>Which results each function can give\<close>

lemma authenticate_Err:
  "authenticate P blob kp = Err e \<Longrightarrow> e = ErrIncompleteMAC \<or> e = ErrIncorrectMAC"
  by (auto simp: authenticate_def Let_def split: if_splits)

lemma authenticate_not_Panic: "authenticate P blob kp \<noteq> Panic p"
  by (auto simp: authenticate_def Let_def split: if_splits)

lemma authenticate_Ok:
  "length tag = 32 \<Longrightarrow> tag = hmac_sha256 P (MACKey kp) data \<Longrightarrow>
     authenticate P (data @ tag) kp = Ok data"
  by (simp add: authenticate_def sha256_Size_def)

lemma decrypt_Err:
  "decrypt P blob kp = Err e \<Longrightarrow>
     e = EOF \<or> e = ErrIncompleteIV \<or> e = ErrIncompleteCiphertext \<or>
     e = KeySizeError (length (EncKey kp))"
  by (auto simp: decrypt_def Read_def Let_def aes_NewCipher_def CryptBlocks_def
      split: if_splits outcome.splits)

lemma decrypt_Ok:
  assumes "length (EncKey kp) = 16 \<or> length (EncKey kp) = 24 \<or> length (EncKey kp) = 32"
    and "length iv = 16" and "16 \<le> length ct" and "length ct mod 16 = 0"
  shows "decrypt P (iv @ ct) kp = Ok (cbc_decrypt (aes_decrypt_block P (EncKey kp)) iv ct)"
  using assms
  by (auto simp: decrypt_def Read_def ReadAll_def aes_BlockSize_def aes_NewCipher_def
      CryptBlocks_def)

lemma DecryptOPData01_Err:
  "DecryptOPData01 P opdata kp = Err e \<Longrightarrow>
     e = ErrIncompleteMAC \<or> e = ErrIncorrectMAC \<or> e = ErrIncompleteMagic \<or>
     e = ErrInvalidMagic \<or> e = EOF \<or> e = ErrUnexpectedEOF \<or> e = ErrIncompleteIV \<or>
     e = ErrIncompleteCiphertext \<or> e = KeySizeError (length (EncKey kp))"
  unfolding DecryptOPData01_def
  by (auto simp: Read_def Let_def binary_Read_uint64_def slice_not_Err
      dest!: authenticate_Err decrypt_Err split: if_splits outcome.splits prod.splits)

lemma DecryptMasterKeys_Err:
  "DecryptMasterKeys P opdata kp = Err e \<Longrightarrow> DecryptOPData01 P opdata kp = Err e"
  unfolding DecryptMasterKeys_def
  by (auto simp: Let_def slice_not_Err split: outcome.splits)

lemma DecryptItemKey_Err:
  "DecryptItemKey P itemKey kp = Err e \<Longrightarrow>
     e = ErrIncompleteMAC \<or> e = ErrIncorrectMAC \<or> e = EOF \<or> e = ErrIncompleteIV \<or>
     e = ErrIncompleteCiphertext \<or> e = KeySizeError (length (EncKey kp))"
  unfolding DecryptItemKey_def
  by (auto simp: slice_not_Err dest!: authenticate_Err decrypt_Err split: outcome.splits)

lemma ComputeDerivedKeys_not_Err: "ComputeDerivedKeys P pass salt nIters \<noteq> Err e"
  unfolding ComputeDerivedKeys_def
  by (auto simp: Let_def slice_not_Err split: outcome.splits)

section \<open>The Authenticator\<close>

text \<open>
  Claim C4. For every key pair and blob, \<open>authenticate\<close> fails with \<open>ErrIncompleteMAC\<close>
  when the blob has fewer than 32 bytes, whatever the tag function is (nothing is
  compared); otherwise it fails with \<open>ErrIncorrectMAC\<close> when the HMAC-SHA-256 of the
  first \<open>len(blob) - 32\<close> bytes under \<open>MACKey\<close> differs from the last 32 bytes, and on a
  match it returns exactly the first \<open>len(blob) - 32\<close> bytes. The block cipher plays no
  part in the result: nothing is decrypted.
\<close>

theorem authenticate_spec:
  "(length blob < 32 \<longrightarrow> authenticate P blob kp = Err ErrIncompleteMAC) \<and>
   (32 \<le> length blob \<and>
      hmac_sha256 P (MACKey kp) (take (length blob - 32) blob) \<noteq> drop (length blob - 32) blob
      \<longrightarrow> authenticate P blob kp = Err ErrIncorrectMAC) \<and>
   (32 \<le> length blob \<and>
      hmac_sha256 P (MACKey kp) (take (length blob - 32) blob) = drop (length blob - 32) blob
      \<longrightarrow> authenticate P blob kp = Ok (take (length blob - 32) blob)) \<and>
   authenticate (P\<lparr>aes_decrypt_block := d\<rparr>) blob kp = authenticate P blob kp"
  by (auto simp: authenticate_def sha256_Size_def Let_def)

theorem authenticate_spec_witness:
  "length (replicate 5 (32 :: byte)) < 32 \<and>
   authenticate toy_primitives (replicate 5 32) toy_kp = Err ErrIncompleteMAC \<and>
   32 \<le> length ([1, 2, 3] @ replicate 32 (71 :: byte)) \<and>
   hmac_sha256 toy_primitives (MACKey toy_kp) [1, 2, 3] \<noteq> replicate 32 71 \<and>
   authenticate toy_primitives ([1, 2, 3] @ replicate 32 71) toy_kp = Err ErrIncorrectMAC \<and>
   32 \<le> length ([1, 2, 3] @ replicate 32 (70 :: byte)) \<and>
   hmac_sha256 toy_primitives (MACKey toy_kp) [1, 2, 3] = replicate 32 70 \<and>
   authenticate toy_primitives ([1, 2, 3] @ replicate 32 70) toy_kp = Ok [1, 2, 3]"
proof -
  let ?short = "replicate 5 (32 :: byte)"
  let ?bad = "[1, 2, 3] @ replicate 32 (71 :: byte)"
  let ?good = "[1, 2, 3] @ replicate 32 (70 :: byte)"
  have s: "length ?short < 32" by simp
  have b1: "32 \<le> length ?bad" by simp
  have b2: "hmac_sha256 toy_primitives (MACKey toy_kp) [1, 2, 3] \<noteq> replicate 32 71"
    by code_simp
  have g1: "32 \<le> length ?good" by simp
  have g2: "hmac_sha256 toy_primitives (MACKey toy_kp) [1, 2, 3] = replicate 32 70"
    by code_simp
  have r1: "authenticate toy_primitives ?short toy_kp = Err ErrIncompleteMAC"
    using authenticate_spec [where blob = ?short and P = toy_primitives and kp = toy_kp] s
    by blast
  have r2: "authenticate toy_primitives ?bad toy_kp = Err ErrIncorrectMAC"
    using authenticate_spec [where blob = ?bad and P = toy_primitives and kp = toy_kp] b2
    by simp
  have r3: "authenticate toy_primitives ?good toy_kp = Ok [1, 2, 3]"
    using authenticate_spec [where blob = ?good and P = toy_primitives and kp = toy_kp] g2
    by simp
  from s b1 b2 g1 g2 r1 r2 r3 show ?thesis by blast
qed

section \<open>The reserved error\<close>

text \<open>
  Claim C10. \<open>ErrIncompleteHeader\<close> is declared but produced by no path: none of
  \<open>ComputeDerivedKeys\<close>, \<open>DecryptMasterKeys\<close>, \<open>DecryptOPData01\<close>, \<open>DecryptItemKey\<close>,
  \<open>authenticate\<close> and \<open>decrypt\<close> returns it, on any input and with any key pair.
\<close>

theorem ErrIncompleteHeader_never_returned:
  "ComputeDerivedKeys P pass salt nIters \<noteq> Err ErrIncompleteHeader \<and>
   DecryptMasterKeys P opdata1 kp1 \<noteq> Err ErrIncompleteHeader \<and>
   DecryptOPData01 P opdata2 kp2 \<noteq> Err ErrIncompleteHeader \<and>
   DecryptItemKey P itemKey kp3 \<noteq> Err ErrIncompleteHeader \<and>
   authenticate P blob1 kp4 \<noteq> Err ErrIncompleteHeader \<and>
   decrypt P blob2 kp5 \<noteq> Err ErrIncompleteHeader"
proof -
  have 1: "ComputeDerivedKeys P pass salt nIters \<noteq> Err ErrIncompleteHeader"
    by (rule ComputeDerivedKeys_not_Err)
  have 2: "DecryptMasterKeys P opdata1 kp1 \<noteq> Err ErrIncompleteHeader"
    using DecryptOPData01_Err [of P opdata1 kp1 ErrIncompleteHeader]
      DecryptMasterKeys_Err [of P opdata1 kp1 ErrIncompleteHeader] by auto
  have 3: "DecryptOPData01 P opdata2 kp2 \<noteq> Err ErrIncompleteHeader"
    using DecryptOPData01_Err [of P opdata2 kp2 ErrIncompleteHeader] by auto
  have 4: "DecryptItemKey P itemKey kp3 \<noteq> Err ErrIncompleteHeader"
    using DecryptItemKey_Err [of P itemKey kp3 ErrIncompleteHeader] by auto
  have 5: "authenticate P blob1 kp4 \<noteq> Err ErrIncompleteHeader"
    using authenticate_Err [of P blob1 kp4 ErrIncompleteHeader] by auto
  have 6: "decrypt P blob2 kp5 \<noteq> Err ErrIncompleteHeader"
    using decrypt_Err [of P blob2 kp5 ErrIncompleteHeader] by auto
  from 1 2 3 4 5 6 show ?thesis by simp
qed

section \<open>The container decoder\<close>

lemma length_OPData01Magic: "length OPData01Magic = 8"
  by (simp add: OPData01Magic_def)

lemma DecryptOPData01_framed:
  assumes auth: "authenticate P opdata kp = Ok (OPData01Magic @ lenbytes @ rest)"
    and len: "length lenbytes = 8"
  shows "DecryptOPData01 P opdata kp =
     (case decrypt P rest kp of
        Panic p \<Rightarrow> Panic p
      | Err e \<Rightarrow> Err e
      | Ok plaintext \<Rightarrow>
          slice_expr plaintext (16 - unat (LittleEndian_Uint64 lenbytes) mod 16) (length plaintext))"
proof -
  have nonempty: "OPData01Magic @ lenbytes @ rest \<noteq> []"
    by (simp add: OPData01Magic_def)
  have rd: "Read (OPData01Magic @ lenbytes @ rest) (length OPData01Magic) =
      Ok (OPData01Magic, lenbytes @ rest)"
    using nonempty by (simp add: Read_def)
  have ne2: "lenbytes @ rest \<noteq> []" using len by auto
  have br: "binary_Read_uint64 (lenbytes @ rest) = Ok (LittleEndian_Uint64 lenbytes, rest)"
    using len ne2 by (simp add: binary_Read_uint64_def)
  show ?thesis
    unfolding DecryptOPData01_def auth
    by (simp add: rd br Let_def ReadAll_def unat_padLen del: append_is_Nil_conv cong: outcome.case_cong)
qed

lemma decrypt_Ok_length:
  "decrypt P blob kp = Ok plaintext \<Longrightarrow> 32 \<le> length blob \<and> length plaintext = length blob - 16
     \<and> length plaintext mod 16 = 0"
  by (auto simp: decrypt_def Read_def ReadAll_def aes_BlockSize_def aes_NewCipher_def
      CryptBlocks_def length_cbc_decrypt_full min_def split: if_splits outcome.splits)

text \<open>
  Claim C1. Let \<open>kp\<close> have a 32-byte \<open>EncKey\<close> and let the container be well formed: the
  magic \<open>"opdata01"\<close>, 8 bytes that read as the little-endian \<open>ptLen\<close>, a 16-byte IV, a
  ciphertext of \<open>ptLen + padLen\<close> bytes with \<open>padLen = 16 - ptLen mod 16\<close>, and as last 32
  bytes the HMAC-SHA-256 tag of everything before under \<open>MACKey\<close>. Then
  \<open>DecryptOPData01\<close> succeeds and returns the CBC-decrypted plaintext without its first
  \<open>padLen\<close> bytes, which is exactly \<open>ptLen\<close> bytes long; when \<open>ptLen\<close> is a multiple of
  16, a full block of 16 bytes is dropped.
\<close>

theorem DecryptOPData01_well_formed:
  assumes key: "length (EncKey kp) = 32"
    and len: "length lenbytes = 8" and ptLen: "LittleEndian_Uint64 lenbytes = ptLen"
    and iv: "length iv = 16"
    and ct: "length ct = unat ptLen + (16 - unat ptLen mod 16)"
    and tag: "length tag = 32"
      "tag = hmac_sha256 P (MACKey kp) (OPData01Magic @ lenbytes @ iv @ ct)"
  shows "DecryptOPData01 P (OPData01Magic @ lenbytes @ iv @ ct @ tag) kp =
           Ok (drop (16 - unat ptLen mod 16) (cbc_decrypt (aes_decrypt_block P (EncKey kp)) iv ct)) \<and>
         length (drop (16 - unat ptLen mod 16)
           (cbc_decrypt (aes_decrypt_block P (EncKey kp)) iv ct)) = unat ptLen \<and>
         (unat ptLen mod 16 = 0 \<longrightarrow>
            DecryptOPData01 P (OPData01Magic @ lenbytes @ iv @ ct @ tag) kp =
              Ok (drop 16 (cbc_decrypt (aes_decrypt_block P (EncKey kp)) iv ct)))"
proof -
  let ?pt = "cbc_decrypt (aes_decrypt_block P (EncKey kp)) iv ct"
  let ?pad = "16 - unat ptLen mod 16"
  have m: "length ct mod 16 = 0" using ct by presburger
  have ge: "16 \<le> length ct" using ct m by presburger
  have lpt: "length ?pt = length ct" using m by (rule length_cbc_decrypt_full)
  have auth: "authenticate P ((OPData01Magic @ lenbytes @ iv @ ct) @ tag) kp =
      Ok (OPData01Magic @ lenbytes @ iv @ ct)"
    using tag by (rule authenticate_Ok)
  have dec: "decrypt P (iv @ ct) kp = Ok ?pt"
    using key iv ge m by (simp add: decrypt_Ok)
  have sl: "slice_expr ?pt ?pad (length ?pt) = Ok (drop ?pad ?pt)"
    using ge lpt by (simp add: slice_Ok)
  have main: "DecryptOPData01 P (OPData01Magic @ lenbytes @ iv @ ct @ tag) kp = Ok (drop ?pad ?pt)"
    using DecryptOPData01_framed [of P "(OPData01Magic @ lenbytes @ iv @ ct) @ tag" kp lenbytes "iv @ ct"]
      auth len by (simp add: dec sl ptLen)
  have l: "length (drop ?pad ?pt) = unat ptLen"
    using lpt ct by simp
  from main l show ?thesis by simp
qed

theorem DecryptOPData01_well_formed_witness:
  "length (EncKey toy_kp) = 32 \<and>
   LittleEndian_Uint64 [16, 0, 0, 0, 0, 0, 0, 0] = 16 \<and>
   length (replicate 32 (255 :: byte)) = unat (16 :: 64 word) + (16 - unat (16 :: 64 word) mod 16) \<and>
   length (hmac_sha256 toy_primitives (MACKey toy_kp)
     (OPData01Magic @ [16, 0, 0, 0, 0, 0, 0, 0] @ replicate 16 0 @ replicate 32 255)) = 32 \<and>
   unat (16 :: 64 word) mod 16 = 0 \<and>
   DecryptOPData01 toy_primitives
     (OPData01Magic @ [16, 0, 0, 0, 0, 0, 0, 0] @ replicate 16 0 @ replicate 32 255 @
      hmac_sha256 toy_primitives (MACKey toy_kp)
        (OPData01Magic @ [16, 0, 0, 0, 0, 0, 0, 0] @ replicate 16 0 @ replicate 32 255))
     toy_kp = Ok (replicate 16 255)"
proof -
  let ?lenbytes = "[16, 0, 0, 0, 0, 0, 0, 0] :: byte list"
  let ?iv = "replicate 16 (0 :: byte)"
  let ?ct = "replicate 32 (255 :: byte)"
  let ?tag = "hmac_sha256 toy_primitives (MACKey toy_kp) (OPData01Magic @ ?lenbytes @ ?iv @ ?ct)"
  have key: "length (EncKey toy_kp) = 32" by code_simp
  have len: "length ?lenbytes = 8" by simp
  have ptLen: "LittleEndian_Uint64 ?lenbytes = 16" by code_simp
  have iv: "length ?iv = 16" by simp
  have ct: "length ?ct = unat (16 :: 64 word) + (16 - unat (16 :: 64 word) mod 16)" by simp
  have tag: "length ?tag = 32" by code_simp
  have al: "unat (16 :: 64 word) mod 16 = 0" by simp
  have pt: "drop 16 (cbc_decrypt (aes_decrypt_block toy_primitives (EncKey toy_kp)) ?iv ?ct) =
      replicate 16 255"
    by code_simp
  have "DecryptOPData01 toy_primitives (OPData01Magic @ ?lenbytes @ ?iv @ ?ct @ ?tag) toy_kp =
      Ok (replicate 16 255)"
    using DecryptOPData01_well_formed [OF key len ptLen iv ct tag refl] al pt by simp
  with key ptLen ct tag al show ?thesis by blast
qed

lemma authenticate_Ok_data:
  "authenticate P blob kp = Ok data \<Longrightarrow> 32 \<le> length blob \<and> data = take (length blob - 32) blob"
  by (auto simp: authenticate_def sha256_Size_def Let_def split: if_splits)

lemma DecryptOPData01_Ok_length:
  assumes ok: "DecryptOPData01 P opdata kp = Ok out"
  shows "80 \<le> length opdata \<and>
     length out = (length opdata - 64) -
        (16 - unat (LittleEndian_Uint64 (take 8 (drop 8 opdata))) mod 16)"
proof -
  from ok obtain data where auth: "authenticate P opdata kp = Ok data"
    by (auto simp: DecryptOPData01_def split: outcome.splits)
  from authenticate_Ok_data [OF auth]
  have l32: "32 \<le> length opdata" and data: "data = take (length opdata - 32) opdata" by simp_all
  from ok auth have magic: "data \<noteq> []" "length data \<ge> 8"
    by (auto simp: DecryptOPData01_def Read_def length_OPData01Magic min_def
        split: outcome.splits if_splits)
  from ok auth magic obtain ptLen where
    rd: "binary_Read_uint64 (drop 8 data) = Ok (ptLen, drop 16 data)"
    by (auto simp: DecryptOPData01_def Read_def length_OPData01Magic binary_Read_uint64_def
        split: outcome.splits if_splits)
  then have l16: "16 \<le> length data" and ptLen: "ptLen = LittleEndian_Uint64 (take 8 (drop 8 data))"
    by (auto simp: binary_Read_uint64_def split: if_splits)
  from ok auth magic rd obtain plaintext where
    dec: "decrypt P (drop 16 data) kp = Ok plaintext" and
    sl: "slice_expr plaintext (16 - unat ptLen mod 16) (length plaintext) = Ok out"
    by (auto simp: DecryptOPData01_def Read_def length_OPData01Magic ReadAll_def Let_def
        unat_padLen split: outcome.splits if_splits)
  from decrypt_Ok_length [OF dec]
  have l48: "32 \<le> length data - 16" and lp: "length plaintext = length data - 32" by simp_all
  from sl have lo: "length out = length plaintext - (16 - unat ptLen mod 16)"
    by (rule slice_Ok_length)
  have ld: "length data = length opdata - 32" using data l32 by simp
  have tk: "take 8 (drop 8 data) = take 8 (drop 8 opdata)"
    using l16 ld by (simp add: data drop_take min_def)
  show ?thesis using l48 lp lo ld l32 by (simp add: ptLen tk)
qed

lemma DecryptOPData01_mod16:
  assumes "authenticate P opdata1 kp = Ok (OPData01Magic @ lb1 @ rest)"
    and "authenticate P opdata2 kp = Ok (OPData01Magic @ lb2 @ rest)"
    and "length lb1 = 8" and "length lb2 = 8"
    and "unat (LittleEndian_Uint64 lb1) mod 16 = unat (LittleEndian_Uint64 lb2) mod 16"
  shows "DecryptOPData01 P opdata1 kp = DecryptOPData01 P opdata2 kp"
  using assms by (simp add: DecryptOPData01_framed cong: outcome.case_cong)

lemma DecryptOPData01_any_length_field:
  assumes auth: "authenticate P opdata kp = Ok (OPData01Magic @ lb @ iv @ ct)"
    and lb: "length lb = 8" and iv: "length iv = 16"
    and ct: "16 \<le> length ct" "length ct mod 16 = 0"
    and key: "length (EncKey kp) = 16 \<or> length (EncKey kp) = 24 \<or> length (EncKey kp) = 32"
  shows "DecryptOPData01 P opdata kp =
     Ok (drop (16 - unat (LittleEndian_Uint64 lb) mod 16)
           (cbc_decrypt (aes_decrypt_block P (EncKey kp)) iv ct))"
proof -
  let ?pt = "cbc_decrypt (aes_decrypt_block P (EncKey kp)) iv ct"
  have dec: "decrypt P (iv @ ct) kp = Ok ?pt"
    using key iv ct by (rule decrypt_Ok)
  have lpt: "length ?pt = length ct" using ct(2) by (rule length_cbc_decrypt_full)
  have sl: "slice_expr ?pt (16 - unat (LittleEndian_Uint64 lb) mod 16) (length ?pt) =
      Ok (drop (16 - unat (LittleEndian_Uint64 lb) mod 16) ?pt)"
    using ct(1) lpt by (simp add: slice_Ok)
  show ?thesis
    using DecryptOPData01_framed [OF auth [unfolded append_assoc] lb] 
    by (simp add: dec sl)
qed

text \<open>
  Claim C9. Whenever \<open>DecryptOPData01\<close> returns a byte sequence, its length is
  \<open>len(ciphertext) - (16 - ptLen mod 16)\<close>, where the ciphertext is what follows the IV
  (\<open>len(opdata) - 64\<close> bytes) and \<open>ptLen\<close> is the length field. The length field enters
  only through \<open>ptLen mod 16\<close>: two authenticated containers that differ in the length
  field alone, with the same residue, give the same result. The returned length is not
  compared with \<open>ptLen\<close>: any authenticated container with a 16-byte IV, a ciphertext of
  a positive multiple of 16 bytes and a key that AES accepts decodes, whatever the length
  field says.
\<close>

theorem DecryptOPData01_length_not_checked:
  "(DecryptOPData01 P opdata kp = Ok out \<longrightarrow>
      80 \<le> length opdata \<and>
      length out = (length opdata - 64) -
        (16 - unat (LittleEndian_Uint64 (take 8 (drop 8 opdata))) mod 16)) \<and>
   (authenticate P opdataA kp = Ok (OPData01Magic @ lbA @ rest) \<and>
    authenticate P opdataB kp = Ok (OPData01Magic @ lbB @ rest) \<and>
    length lbA = 8 \<and> length lbB = 8 \<and>
    unat (LittleEndian_Uint64 lbA) mod 16 = unat (LittleEndian_Uint64 lbB) mod 16 \<longrightarrow>
      DecryptOPData01 P opdataA kp = DecryptOPData01 P opdataB kp) \<and>
   (authenticate P opdataC kp = Ok (OPData01Magic @ lbC @ iv @ ct) \<and>
    length lbC = 8 \<and> length iv = 16 \<and> 16 \<le> length ct \<and> length ct mod 16 = 0 \<and>
    (length (EncKey kp) = 16 \<or> length (EncKey kp) = 24 \<or> length (EncKey kp) = 32) \<longrightarrow>
      DecryptOPData01 P opdataC kp =
        Ok (drop (16 - unat (LittleEndian_Uint64 lbC) mod 16)
              (cbc_decrypt (aes_decrypt_block P (EncKey kp)) iv ct)))"
proof (intro conjI impI)
  assume "DecryptOPData01 P opdata kp = Ok out"
  from DecryptOPData01_Ok_length [OF this]
  show "80 \<le> length opdata"
    and "length out = (length opdata - 64) -
        (16 - unat (LittleEndian_Uint64 (take 8 (drop 8 opdata))) mod 16)"
    by simp_all
next
  assume "authenticate P opdataA kp = Ok (OPData01Magic @ lbA @ rest) \<and>
    authenticate P opdataB kp = Ok (OPData01Magic @ lbB @ rest) \<and>
    length lbA = 8 \<and> length lbB = 8 \<and>
    unat (LittleEndian_Uint64 lbA) mod 16 = unat (LittleEndian_Uint64 lbB) mod 16"
  then show "DecryptOPData01 P opdataA kp = DecryptOPData01 P opdataB kp"
    by (simp add: DecryptOPData01_mod16)
next
  assume "authenticate P opdataC kp = Ok (OPData01Magic @ lbC @ iv @ ct) \<and>
    length lbC = 8 \<and> length iv = 16 \<and> 16 \<le> length ct \<and> length ct mod 16 = 0 \<and>
    (length (EncKey kp) = 16 \<or> length (EncKey kp) = 24 \<or> length (EncKey kp) = 32)"
  then show "DecryptOPData01 P opdataC kp =
        Ok (drop (16 - unat (LittleEndian_Uint64 lbC) mod 16)
              (cbc_decrypt (aes_decrypt_block P (EncKey kp)) iv ct))"
    by (simp add: DecryptOPData01_any_length_field)
qed

theorem DecryptOPData01_length_not_checked_witness:
  "LittleEndian_Uint64 [232, 3, 0, 0, 0, 0, 0, 0] = 1000 \<and>
   LittleEndian_Uint64 [8, 0, 0, 0, 0, 0, 0, 0] = 8 \<and>
   length (replicate 16 (255 :: byte)) \<noteq> 1000 + (16 - 1000 mod 16) \<and>
   DecryptOPData01 toy_primitives
     (container toy_primitives toy_kp [232, 3, 0, 0, 0, 0, 0, 0] (replicate 16 0) (replicate 16 255))
     toy_kp = Ok (replicate 8 0) \<and>
   length (replicate 8 (0 :: byte)) = length (replicate 16 (255 :: byte)) - (16 - 1000 mod 16) \<and>
   DecryptOPData01 toy_primitives
     (container toy_primitives toy_kp [8, 0, 0, 0, 0, 0, 0, 0] (replicate 16 0) (replicate 16 255))
     toy_kp = Ok (replicate 8 0)"
proof -
  let ?lbA = "[232, 3, 0, 0, 0, 0, 0, 0] :: byte list"
  let ?lbB = "[8, 0, 0, 0, 0, 0, 0, 0] :: byte list"
  let ?iv = "replicate 16 (0 :: byte)"
  let ?ct = "replicate 16 (255 :: byte)"
  let ?A = "container toy_primitives toy_kp ?lbA ?iv ?ct"
  let ?B = "container toy_primitives toy_kp ?lbB ?iv ?ct"
  note inst = DecryptOPData01_length_not_checked [where P = toy_primitives and kp = toy_kp
      and opdata = ?A and out = "replicate 8 0"
      and opdataA = ?A and lbA = ?lbA and opdataB = ?B and lbB = ?lbB and rest = "?iv @ ?ct"
      and opdataC = ?A and lbC = ?lbA and iv = ?iv and ct = ?ct]
  have nA: "LittleEndian_Uint64 ?lbA = 1000" by code_simp
  have nB: "LittleEndian_Uint64 ?lbB = 8" by code_simp
  have authA: "authenticate toy_primitives ?A toy_kp = Ok (OPData01Magic @ ?lbA @ ?iv @ ?ct)"
    by code_simp
  have authB: "authenticate toy_primitives ?B toy_kp = Ok (OPData01Magic @ ?lbB @ ?iv @ ?ct)"
    by code_simp
  have key: "length (EncKey toy_kp) = 32" by code_simp
  have pt: "drop 8 (cbc_decrypt (aes_decrypt_block toy_primitives (EncKey toy_kp)) ?iv ?ct) =
      replicate 8 0"
    by code_simp
  have lenA: "length ?A = 80" by code_simp
  have okA: "DecryptOPData01 toy_primitives ?A toy_kp = Ok (replicate 8 0)"
    using inst authA key nA pt by simp
  have eq: "DecryptOPData01 toy_primitives ?A toy_kp = DecryptOPData01 toy_primitives ?B toy_kp"
    using inst authA authB nA nB by simp
  have ne: "length ?ct \<noteq> 1000 + (16 - 1000 mod 16)" by simp
  have l: "length (replicate 8 (0 :: byte)) = length ?ct - (16 - 1000 mod 16)" by simp
  from nA nB ne okA eq l show ?thesis by simp
qed

section \<open>The item key path\<close>

lemma DecryptItemKey_framed:
  assumes auth: "authenticate P itemKey kp = Ok (iv @ ct)"
    and iv: "length iv = 16" and ct: "16 \<le> length ct" "length ct mod 16 = 0"
    and key: "length (EncKey kp) = 16 \<or> length (EncKey kp) = 24 \<or> length (EncKey kp) = 32"
  shows "DecryptItemKey P itemKey kp =
     (if length ct < 64 then Panic SliceBoundsOutOfRange
      else Ok \<lparr>EncKey = take 32 (cbc_decrypt (aes_decrypt_block P (EncKey kp)) iv ct),
               MACKey = take 32 (drop 32 (cbc_decrypt (aes_decrypt_block P (EncKey kp)) iv ct))\<rparr>)"
proof -
  let ?pt = "cbc_decrypt (aes_decrypt_block P (EncKey kp)) iv ct"
  have dec: "decrypt P (iv @ ct) kp = Ok ?pt"
    using key iv ct by (rule decrypt_Ok)
  have lpt: "length ?pt = length ct" using ct(2) by (rule length_cbc_decrypt_full)
  show ?thesis
    unfolding DecryptItemKey_def auth
    by (simp add: dec slice_expr_def lpt EncKeySize_def MACKeySize_def)
qed

text \<open>
  Claim C5. For a 112-byte item-key blob \<open>iv(16) || ciphertext(64) || tag(32)\<close> whose tag
  is the HMAC-SHA-256 of \<open>iv || ciphertext\<close> under the master \<open>MACKey\<close>, and whose
  ciphertext CBC-decrypts under the master \<open>EncKey\<close> (a key that AES accepts) and the
  blob's IV to \<open>K\<close>, \<open>DecryptItemKey\<close> returns the pair \<open>EncKey = K[0:32]\<close>,
  \<open>MACKey = K[32:64]\<close>. \<open>K\<close> has 64 bytes and is the two keys side by side; the hash
  function plays no part in the result.
\<close>

theorem DecryptItemKey_well_formed:
  assumes key: "length (EncKey kp) = 16 \<or> length (EncKey kp) = 24 \<or> length (EncKey kp) = 32"
    and iv: "length iv = 16" and ct: "length ct = 64"
    and tag: "length tag = 32" "tag = hmac_sha256 P (MACKey kp) (iv @ ct)"
    and K: "cbc_decrypt (aes_decrypt_block P (EncKey kp)) iv ct = K"
  shows "DecryptItemKey P (iv @ ct @ tag) kp = Ok \<lparr>EncKey = take 32 K, MACKey = take 32 (drop 32 K)\<rparr> \<and>
         length K = 64 \<and> take 32 K @ take 32 (drop 32 K) = K \<and>
         DecryptItemKey (P\<lparr>sha512_Sum512 := h\<rparr>) (iv @ ct @ tag) kp =
           DecryptItemKey P (iv @ ct @ tag) kp"
proof -
  have auth: "authenticate P ((iv @ ct) @ tag) kp = Ok (iv @ ct)"
    using tag by (rule authenticate_Ok)
  have lK: "length K = 64"
    using length_cbc_decrypt_full [of ct "aes_decrypt_block P (EncKey kp)" iv] ct K by simp
  have 1: "DecryptItemKey P (iv @ ct @ tag) kp =
      Ok \<lparr>EncKey = take 32 K, MACKey = take 32 (drop 32 K)\<rparr>"
    using DecryptItemKey_framed [OF auth iv _ _ key] ct K by simp
  let ?P = "P\<lparr>sha512_Sum512 := h\<rparr>"
  have auth': "authenticate ?P ((iv @ ct) @ tag) kp = Ok (iv @ ct)"
    using tag by (intro authenticate_Ok) simp_all
  have key': "length (EncKey kp) = 16 \<or> length (EncKey kp) = 24 \<or> length (EncKey kp) = 32"
    by (rule key)
  have 2: "DecryptItemKey ?P (iv @ ct @ tag) kp =
      Ok \<lparr>EncKey = take 32 K, MACKey = take 32 (drop 32 K)\<rparr>"
    using DecryptItemKey_framed [OF auth' iv _ _ key'] ct K by simp
  have 3: "take 32 K @ take 32 (drop 32 K) = K"
  proof -
    have "take 32 (drop 32 K) = drop 32 K" using lK by simp
    then show ?thesis by simp
  qed
  from 1 2 3 lK show ?thesis by simp
qed

theorem DecryptItemKey_well_formed_witness:
  "length (EncKey toy_kp) = 32 \<and>
   length (hmac_sha256 toy_primitives (MACKey toy_kp)
     (replicate 16 0 @ replicate 32 170 @ replicate 32 85)) = 32 \<and>
   cbc_decrypt (aes_decrypt_block toy_primitives (EncKey toy_kp)) (replicate 16 0)
     (replicate 32 170 @ replicate 32 85) =
     replicate 16 85 @ replicate 16 255 @ replicate 16 0 @ replicate 16 255 \<and>
   DecryptItemKey toy_primitives
     (replicate 16 0 @ (replicate 32 170 @ replicate 32 85) @
      hmac_sha256 toy_primitives (MACKey toy_kp)
        (replicate 16 0 @ replicate 32 170 @ replicate 32 85))
     toy_kp =
     Ok \<lparr>EncKey = replicate 16 85 @ replicate 16 255, MACKey = replicate 16 0 @ replicate 16 255\<rparr>"
proof -
  let ?iv = "replicate 16 (0 :: byte)"
  let ?ct = "replicate 32 (170 :: byte) @ replicate 32 85"
  let ?tag = "hmac_sha256 toy_primitives (MACKey toy_kp) (?iv @ ?ct)"
  let ?K = "replicate 16 (85 :: byte) @ replicate 16 255 @ replicate 16 0 @ replicate 16 255"
  have key: "length (EncKey toy_kp) = 16 \<or> length (EncKey toy_kp) = 24 \<or>
      length (EncKey toy_kp) = 32" by code_simp
  have key32: "length (EncKey toy_kp) = 32" by code_simp
  have iv: "length ?iv = 16" by simp
  have ct: "length ?ct = 64" by simp
  have tag: "length ?tag = 32" by code_simp
  have K: "cbc_decrypt (aes_decrypt_block toy_primitives (EncKey toy_kp)) ?iv ?ct = ?K"
    by code_simp
  have "DecryptItemKey toy_primitives (?iv @ ?ct @ ?tag) toy_kp =
      Ok \<lparr>EncKey = take 32 ?K, MACKey = take 32 (drop 32 ?K)\<rparr>"
    using DecryptItemKey_well_formed [OF key iv ct tag refl K] by blast
  then have "DecryptItemKey toy_primitives (?iv @ ?ct @ ?tag) toy_kp =
      Ok \<lparr>EncKey = replicate 16 85 @ replicate 16 255, MACKey = replicate 16 0 @ replicate 16 255\<rparr>"
    by simp
  with key32 tag K show ?thesis by simp
qed

section \<open>Key pair sizes\<close>

lemma ComputeDerivedKeys_Ok_sizes:
  "ComputeDerivedKeys P pass salt nIters = Ok k \<Longrightarrow>
     length (EncKey k) = 32 \<and> length (MACKey k) = 32"
  unfolding ComputeDerivedKeys_def Let_def
  by (auto split: outcome.splits dest!: slice_Ok_length)

lemma DecryptMasterKeys_Ok_sizes:
  "DecryptMasterKeys P opdata kp = Ok k \<Longrightarrow>
     length (EncKey k) = 32 \<and> length (MACKey k) = 32"
  unfolding DecryptMasterKeys_def Let_def
  by (auto split: outcome.splits dest!: slice_Ok_length)

lemma DecryptItemKey_Ok_sizes:
  "DecryptItemKey P itemKey kp = Ok k \<Longrightarrow>
     length (EncKey k) = 32 \<and> length (MACKey k) = 32"
  unfolding DecryptItemKey_def
  by (auto simp: EncKeySize_def MACKeySize_def split: outcome.splits dest!: slice_Ok_length)

text \<open>
  Claim C8. Every key pair that \<open>ComputeDerivedKeys\<close>, \<open>DecryptMasterKeys\<close> or
  \<open>DecryptItemKey\<close> returns has an \<open>EncKey\<close> of exactly 32 bytes and a \<open>MACKey\<close> of
  exactly 32 bytes.
\<close>

theorem KeyPair_sizes:
  "(ComputeDerivedKeys P pass salt nIters = Ok derived \<longrightarrow>
      length (EncKey derived) = 32 \<and> length (MACKey derived) = 32) \<and>
   (DecryptMasterKeys P opdata derivedKeys = Ok master \<longrightarrow>
      length (EncKey master) = 32 \<and> length (MACKey master) = 32) \<and>
   (DecryptItemKey P itemKey masterKeys = Ok item \<longrightarrow>
      length (EncKey item) = 32 \<and> length (MACKey item) = 32)"
  using ComputeDerivedKeys_Ok_sizes DecryptMasterKeys_Ok_sizes DecryptItemKey_Ok_sizes
  by blast

theorem KeyPair_sizes_witness:
  "ComputeDerivedKeys toy_primitives [112, 119] [115] 1000 =
     Ok \<lparr>EncKey = replicate 32 90, MACKey = replicate 32 90\<rparr> \<and>
   length (EncKey \<lparr>EncKey = replicate 32 (90 :: byte), MACKey = replicate 32 (90 :: byte)\<rparr>) = 32 \<and>
   length (MACKey \<lparr>EncKey = replicate 32 (90 :: byte), MACKey = replicate 32 (90 :: byte)\<rparr>) = 32 \<and>
   DecryptMasterKeys toy_primitives
     (container toy_primitives toy_kp [16, 0, 0, 0, 0, 0, 0, 0] (replicate 16 0) (replicate 32 255))
     toy_kp = Ok \<lparr>EncKey = replicate 32 0, MACKey = replicate 31 0 @ [16]\<rparr> \<and>
   length (EncKey \<lparr>EncKey = replicate 32 (0 :: byte), MACKey = replicate 31 (0 :: byte) @ [16]\<rparr>) = 32 \<and>
   length (MACKey \<lparr>EncKey = replicate 32 (0 :: byte), MACKey = replicate 31 (0 :: byte) @ [16]\<rparr>) = 32 \<and>
   DecryptItemKey toy_primitives
     (item_key_blob toy_primitives toy_kp (replicate 16 0) (replicate 32 170 @ replicate 32 85))
     toy_kp =
     Ok \<lparr>EncKey = replicate 16 85 @ replicate 16 255, MACKey = replicate 16 0 @ replicate 16 255\<rparr> \<and>
   length (EncKey \<lparr>EncKey = replicate 16 (85 :: byte) @ replicate 16 255,
                    MACKey = replicate 16 (0 :: byte) @ replicate 16 255\<rparr>) = 32 \<and>
   length (MACKey \<lparr>EncKey = replicate 16 (85 :: byte) @ replicate 16 255,
                    MACKey = replicate 16 (0 :: byte) @ replicate 16 255\<rparr>) = 32"
proof -
  let ?d = "\<lparr>EncKey = replicate 32 (90 :: byte), MACKey = replicate 32 (90 :: byte)\<rparr>"
  let ?m = "\<lparr>EncKey = replicate 32 (0 :: byte), MACKey = replicate 31 (0 :: byte) @ [16]\<rparr>"
  let ?i = "\<lparr>EncKey = replicate 16 (85 :: byte) @ replicate 16 255,
             MACKey = replicate 16 (0 :: byte) @ replicate 16 255\<rparr>"
  let ?opdata = "container toy_primitives toy_kp [16, 0, 0, 0, 0, 0, 0, 0] (replicate 16 0)
      (replicate 32 255)"
  let ?itemKey = "item_key_blob toy_primitives toy_kp (replicate 16 0)
      (replicate 32 170 @ replicate 32 85)"
  have d: "ComputeDerivedKeys toy_primitives [112, 119] [115] 1000 = Ok ?d" by code_simp
  have m: "DecryptMasterKeys toy_primitives ?opdata toy_kp = Ok ?m" by code_simp
  have i: "DecryptItemKey toy_primitives ?itemKey toy_kp = Ok ?i" by code_simp
  note inst = KeyPair_sizes [where P = toy_primitives and pass = "[112, 119]" and salt = "[115]"
      and nIters = 1000 and derived = ?d and opdata = ?opdata and derivedKeys = toy_kp
      and master = ?m and itemKey = ?itemKey and masterKeys = toy_kp and item = ?i]
  from inst d have 1: "length (EncKey ?d) = 32 \<and> length (MACKey ?d) = 32" by blast
  from inst m have 2: "length (EncKey ?m) = 32 \<and> length (MACKey ?m) = 32" by blast
  from inst i have 3: "length (EncKey ?i) = 32 \<and> length (MACKey ?i) = 32" by blast
  from d m i 1 2 3 show ?thesis by blast
qed

section \<open>Key derivation\<close>

text \<open>
  Claim C7, as the code has it. \<open>ComputeDerivedKeys\<close> does not look at the iteration
  count: for every passphrase, salt and \<open>nIters\<close> (positive, zero or negative) it hands
  \<open>nIters\<close> to PBKDF2-HMAC-SHA-512 and, given the 64 bytes asked for, returns
  \<open>EncKey = bytes[0:32]\<close>, \<open>MACKey = bytes[32:64]\<close>. It has no failing result.
\<close>

theorem ComputeDerivedKeys_accepts_any_iteration_count:
  assumes "length (pbkdf2_sha512 P pass salt nIters 64) = 64"
  shows "ComputeDerivedKeys P pass salt nIters =
     Ok \<lparr>EncKey = take 32 (pbkdf2_sha512 P pass salt nIters 64),
         MACKey = take 32 (drop 32 (pbkdf2_sha512 P pass salt nIters 64))\<rparr>"
  using assms by (simp add: ComputeDerivedKeys_def Let_def slice_expr_def)

theorem ComputeDerivedKeys_accepts_any_iteration_count_witness:
  "length (pbkdf2_sha512 toy_primitives [112, 119] [115] (- 3) 64) = 64 \<and>
   ComputeDerivedKeys toy_primitives [112, 119] [115] (- 3) =
     Ok \<lparr>EncKey = take 32 (pbkdf2_sha512 toy_primitives [112, 119] [115] (- 3) 64),
         MACKey = take 32 (drop 32 (pbkdf2_sha512 toy_primitives [112, 119] [115] (- 3) 64))\<rparr>"
proof -
  have h: "length (pbkdf2_sha512 toy_primitives [112, 119] [115] (- 3) 64) = 64"
    by (simp add: toy_primitives_def)
  from h ComputeDerivedKeys_accepts_any_iteration_count [OF h] show ?thesis by blast
qed

text \<open>
  The claim as stated asks for a failure when \<open>nIters \<le> 0\<close>; with an iteration count
  of zero a key pair is returned.
\<close>

theorem ComputeDerivedKeys_zero_iterations_counterexample:
  "(0 :: int) \<le> 0 \<and>
   ComputeDerivedKeys toy_primitives [112, 119] [115] 0 =
     Ok \<lparr>EncKey = replicate 32 90, MACKey = replicate 32 90\<rparr>"
  by code_simp

section \<open>Framing violations\<close>

lemma decrypt_cases:
  "decrypt P blob kp =
     (if blob = [] then Err EOF
      else if length blob < 16 then Err ErrIncompleteIV
      else if length blob < 32 then Err ErrIncompleteCiphertext
      else if length (EncKey kp) = 16 \<or> length (EncKey kp) = 24 \<or> length (EncKey kp) = 32
      then (if length blob mod 16 \<noteq> 0 then Panic InputNotFullBlocks
            else Ok (cbc_decrypt (aes_decrypt_block P (EncKey kp)) (take 16 blob) (drop 16 blob)))
      else Err (KeySizeError (length (EncKey kp))))"
proof -
  have m: "(length blob - 16) mod 16 = length blob mod 16" if "16 \<le> length blob"
    using that by (simp add: le_mod_geq)
  show ?thesis
    by (auto simp: decrypt_def Read_def ReadAll_def aes_BlockSize_def aes_NewCipher_def
        CryptBlocks_def Let_def min_def m)
qed

text \<open>
  Claim C2, what \<open>decrypt\<close> does on every input. An empty input fails with \<open>io.EOF\<close>,
  not \<open>ErrIncompleteIV\<close>; 1 to 15 bytes fail with \<open>ErrIncompleteIV\<close>; a remainder of
  fewer than 16 bytes after the IV fails with \<open>ErrIncompleteCiphertext\<close>. A remainder of
  16 bytes or more is only checked by the library: a key that AES refuses gives
  \<open>KeySizeError\<close>, and a remainder that is not a multiple of 16 makes \<open>CryptBlocks\<close>
  panic instead of failing with \<open>ErrIncompleteCiphertext\<close>.
\<close>

theorem decrypt_outcomes:
  "decrypt P blob kp =
     (if blob = [] then Err EOF
      else if length blob < 16 then Err ErrIncompleteIV
      else if length blob < 32 then Err ErrIncompleteCiphertext
      else if length (EncKey kp) = 16 \<or> length (EncKey kp) = 24 \<or> length (EncKey kp) = 32
      then (if length blob mod 16 \<noteq> 0 then Panic InputNotFullBlocks
            else Ok (cbc_decrypt (aes_decrypt_block P (EncKey kp)) (take 16 blob) (drop 16 blob)))
      else Err (KeySizeError (length (EncKey kp))))"
  by (rule decrypt_cases)

theorem decrypt_outcomes_failing_inputs:
  "decrypt toy_primitives (replicate 16 0 @ replicate 17 255) toy_kp = Panic InputNotFullBlocks \<and>
   decrypt toy_primitives [] toy_kp = Err EOF"
proof -
  have key: "length (EncKey toy_kp) = 32" by code_simp
  have 1: "decrypt toy_primitives (replicate 16 0 @ replicate 17 255) toy_kp =
      Panic InputNotFullBlocks"
    using decrypt_outcomes [of toy_primitives "replicate 16 0 @ replicate 17 255" toy_kp] key
    by simp
  have 2: "decrypt toy_primitives [] toy_kp = Err EOF"
    using decrypt_outcomes [of toy_primitives "[]" toy_kp] by simp
  from 1 2 show ?thesis by simp
qed

text \<open>
  Claim C3, what \<open>DecryptItemKey\<close> does once the tag has verified, with a key that AES
  accepts. The length of the authenticated remainder is never compared with 80: a
  remainder of 32, 48 or 64 bytes decrypts and then panics in the slice expression, and a
  remainder of 96 bytes or more (a multiple of 16) yields a key pair from the first 64
  plaintext bytes. An empty remainder fails with \<open>io.EOF\<close>.
\<close>

theorem DecryptItemKey_outcomes:
  assumes auth: "authenticate P itemKey kp = Ok payload"
    and key: "length (EncKey kp) = 16 \<or> length (EncKey kp) = 24 \<or> length (EncKey kp) = 32"
  shows "DecryptItemKey P itemKey kp =
     (if payload = [] then Err EOF
      else if length payload < 16 then Err ErrIncompleteIV
      else if length payload < 32 then Err ErrIncompleteCiphertext
      else if length payload mod 16 \<noteq> 0 then Panic InputNotFullBlocks
      else if length payload < 80 then Panic SliceBoundsOutOfRange
      else Ok \<lparr>EncKey = take 32 (cbc_decrypt (aes_decrypt_block P (EncKey kp))
                                 (take 16 payload) (drop 16 payload)),
               MACKey = take 32 (drop 32 (cbc_decrypt (aes_decrypt_block P (EncKey kp))
                                 (take 16 payload) (drop 16 payload)))\<rparr>)"
proof -
  let ?pt = "cbc_decrypt (aes_decrypt_block P (EncKey kp)) (take 16 payload) (drop 16 payload)"
  have lpt: "length ?pt = length payload - 16"
    if "16 \<le> length payload" "length payload mod 16 = 0"
  proof -
    have "length (drop 16 payload) mod 16 = 0" using that by (simp add: le_mod_geq)
    then have "length ?pt = length (drop 16 payload)" by (rule length_cbc_decrypt_full)
    then show ?thesis by simp
  qed
  show ?thesis
    unfolding DecryptItemKey_def auth
    using key lpt
    by (auto simp: decrypt_cases [of P payload kp] slice_expr_def EncKeySize_def MACKeySize_def)
qed

theorem DecryptItemKey_outcomes_failing_inputs:
  "DecryptItemKey toy_primitives
     (item_key_blob toy_primitives toy_kp (replicate 16 0) (replicate 16 255)) toy_kp =
     Panic SliceBoundsOutOfRange \<and>
   DecryptItemKey toy_primitives
     (item_key_blob toy_primitives toy_kp (replicate 16 0) (replicate 80 255)) toy_kp =
     Ok \<lparr>EncKey = replicate 16 0 @ replicate 16 255, MACKey = replicate 32 255\<rparr>"
proof -
  let ?short = "item_key_blob toy_primitives toy_kp (replicate 16 0) (replicate 16 255)"
  let ?long = "item_key_blob toy_primitives toy_kp (replicate 16 0) (replicate 80 255)"
  have key: "length (EncKey toy_kp) = 16 \<or> length (EncKey toy_kp) = 24 \<or>
      length (EncKey toy_kp) = 32" by code_simp
  have a1: "authenticate toy_primitives ?short toy_kp = Ok (replicate 16 0 @ replicate 16 255)"
    by code_simp
  have a2: "authenticate toy_primitives ?long toy_kp = Ok (replicate 16 0 @ replicate 80 255)"
    by code_simp
  have pt: "cbc_decrypt (aes_decrypt_block toy_primitives (EncKey toy_kp))
      (take 16 (replicate 16 0 @ replicate 80 255)) (drop 16 (replicate 16 0 @ replicate 80 255)) =
      replicate 16 0 @ replicate 64 255"
    by code_simp
  have 1: "DecryptItemKey toy_primitives ?short toy_kp = Panic SliceBoundsOutOfRange"
    using DecryptItemKey_outcomes [OF a1 key] by simp
  have 2: "DecryptItemKey toy_primitives ?long toy_kp =
      Ok \<lparr>EncKey = replicate 16 0 @ replicate 16 255, MACKey = replicate 32 255\<rparr>"
    unfolding DecryptItemKey_outcomes [OF a2 key] pt by simp
  from 1 2 show ?thesis by simp
qed

text \<open>
  Claim C6, what \<open>DecryptOPData01\<close> does with the magic once the tag has verified. An
  empty payload fails with \<open>io.EOF\<close>, not \<open>ErrIncompleteMagic\<close>; a payload of 1 to 7
  bytes fails with \<open>ErrIncompleteMagic\<close>; a payload of 8 bytes or more whose first 8
  bytes are not \<open>"opdata01"\<close> fails with \<open>ErrInvalidMagic\<close>.
\<close>

theorem DecryptOPData01_magic_outcomes:
  assumes auth: "authenticate P opdata kp = Ok payload"
  shows "(payload = [] \<longrightarrow> DecryptOPData01 P opdata kp = Err EOF) \<and>
         (payload \<noteq> [] \<and> length payload < 8 \<longrightarrow>
            DecryptOPData01 P opdata kp = Err ErrIncompleteMagic) \<and>
         (8 \<le> length payload \<and> take 8 payload \<noteq> OPData01Magic \<longrightarrow>
            DecryptOPData01 P opdata kp = Err ErrInvalidMagic)"
  unfolding DecryptOPData01_def auth
  by (auto simp: Read_def length_OPData01Magic)

theorem DecryptOPData01_magic_outcomes_failing_input:
  "authenticate toy_primitives (replicate 32 64) toy_kp = Ok [] \<and>
   DecryptOPData01 toy_primitives (replicate 32 64) toy_kp = Err EOF \<and>
   authenticate toy_primitives ([1, 2, 3] @ replicate 32 70) toy_kp = Ok [1, 2, 3] \<and>
   DecryptOPData01 toy_primitives ([1, 2, 3] @ replicate 32 70) toy_kp = Err ErrIncompleteMagic"
proof -
  have a1: "authenticate toy_primitives (replicate 32 64) toy_kp = Ok []" by code_simp
  have a2: "authenticate toy_primitives ([1, 2, 3] @ replicate 32 70) toy_kp = Ok [1, 2, 3]"
    by code_simp
  have 1: "DecryptOPData01 toy_primitives (replicate 32 64) toy_kp = Err EOF"
    using DecryptOPData01_magic_outcomes [OF a1] by simp
  have 2: "DecryptOPData01 toy_primitives ([1, 2, 3] @ replicate 32 70) toy_kp =
      Err ErrIncompleteMagic"
    using DecryptOPData01_magic_outcomes [OF a2] by simp
  from a1 a2 1 2 show ?thesis by simp
qed

end
